theory Spec2Isabelle
  imports Complex_Main "HOL-Library.Word"
begin

unbundle bit_operations_syntax

section \<open>The resilient upstream request executor of http\_rest.go\<close>

text \<open>
  The development embeds the retry machinery of \<^verbatim>\<open>http_rest.go\<close>: the backoff
  calculator \<^verbatim>\<open>calcBackoff\<close>, the status classifiers, the attempt loop
  \<^verbatim>\<open>execReq\<close> and the method builders that set a default header.

  Everything outside the file is an explicit input of the model:
  \<^item> the transport (\<^verbatim>\<open>c.client.Do\<close> followed by \<^verbatim>\<open>io.ReadAll\<close>) is a function
    from the request and the 0-based number of the call to what that call yields;
  \<^item> the global random generator is the sequence of the draws of \<^verbatim>\<open>rand.Float64()\<close>;
  \<^item> the standard library functions used by the builders are fields of a record;
  \<^item> what the code does to the outside (calls of the transport, log records, sleeps)
    is returned as a list of events next to the result.
\<close>

subsection \<open>Durations and the backoff calculator\<close>

text \<open>
  \<^verbatim>\<open>time.Duration\<close> is an \<^verbatim>\<open>int64\<close> counting nanoseconds: a 64-bit word read
  through \<^const>\<open>sint\<close>, on which \<open>*\<close> and \<open>+\<close> wrap around as in Go.
\<close>

type_synonym duration = "64 word"

definition second :: duration where
  "second = 1000000000"

text \<open>
  Go converts a floating-point number to an integer by discarding the fraction
  (truncation towards zero). The float64 arithmetic of \<^verbatim>\<open>rand.Float64()*0.4-0.2\<close> is
  read as arithmetic on reals; the rounding of float64 moves the value by far less than
  the distance of \<open>[-0.2, 0.2]\<close> to \<open>-1\<close> and \<open>1\<close>.
\<close>

definition trunc_toward_zero :: "real \<Rightarrow> int" where
  "trunc_toward_zero x = (if 0 \<le> x then \<lfloor>x\<rfloor> else \<lceil>x\<rceil>)"

definition float_to_duration :: "real \<Rightarrow> duration" where
  "float_to_duration x = word_of_int (trunc_toward_zero x)"

text \<open>
  \<^verbatim>\<open>calcBackoff(attempt, baseDelay)\<close>, with the draw \<open>r\<close> of \<^verbatim>\<open>rand.Float64()\<close> as a
  third argument. The shift \<^verbatim>\<open>1<<time.Duration(attempt)\<close> is a shift of an
  \<^verbatim>\<open>int64\<close>: a count of 64 or more gives 0, a negative count is a run-time panic
  (the value \<open>None\<close>).
\<close>

definition calcBackoff :: "int \<Rightarrow> duration \<Rightarrow> real \<Rightarrow> duration option" where
  "calcBackoff attempt baseDelay r =
     (if attempt < 0 then None
      else
        let backoff = baseDelay * push_bit (nat attempt) 1;
            jitter = float_to_duration (r * 0.4 - 0.2) * backoff;
            backoff = backoff + jitter;
            maxBackoff = 30 * second
        in Some (if maxBackoff <s backoff then maxBackoff else backoff))"

subsection \<open>Status classifiers\<close>

definition StatusTooManyRequests :: int where
  "StatusTooManyRequests = 429"

definition StatusServiceUnavailable :: int where
  "StatusServiceUnavailable = 503"

definition StatusGatewayTimeout :: int where
  "StatusGatewayTimeout = 504"

definition isRetryableStatusCode :: "int \<Rightarrow> bool" where
  "isRetryableStatusCode code \<longleftrightarrow>
     code = StatusTooManyRequests \<or>
     code = StatusServiceUnavailable \<or>
     code = StatusGatewayTimeout \<or>
     code \<ge> 500"

definition isSuccessStatus :: "int \<Rightarrow> bool" where
  "isSuccessStatus code \<longleftrightarrow> code \<ge> 200 \<and> code < 300"

subsection \<open>Errors, requests, responses and events\<close>

text \<open>
  The cause of a failure outside the file. The two context errors are told apart from
  every other cause so that statements about cancellation can be written.
\<close>

datatype cause = ContextCanceled | DeadlineExceeded | Other string

text \<open>
  The error values the file builds:
  \<^item> \<open>Cause\<close>: an error returned by the transport, the body reader or the library;
  \<^item> \<open>Errorf msg err\<close>: \<^verbatim>\<open>fmt.Errorf("<msg>: %w", err)\<close>;
  \<^item> \<open>RequestError\<close>: the struct of that name, with its three fields;
  \<^item> \<open>ErrorfAttempts n last\<close>:
    \<^verbatim>\<open>fmt.Errorf("request failed after %d attempts: %v", n, last)\<close>;
  \<^item> \<open>ShiftPanic\<close>: not an error value but the panic of a negative shift count in
    \<^verbatim>\<open>calcBackoff\<close>, which ends the call.
\<close>

datatype goerror =
    Cause cause
  | Errorf string goerror
  | RequestError (StatusCode: int) (Body: string) (Err: "goerror option")
  | ErrorfAttempts int "goerror option"
  | ShiftPanic

record 'ctx request =
  req_ctx :: 'ctx
  Method :: string
  URL :: string
  Header :: "string \<rightharpoonup> string list"
  req_body :: "string option"

text \<open>
  What one call of \<^verbatim>\<open>c.client.Do(req)\<close> and the \<^verbatim>\<open>io.ReadAll(resp.Body)\<close> after it
  yield: \<^verbatim>\<open>Do\<close> fails; \<^verbatim>\<open>Do\<close> gives a response with a status and reading its body
  fails; or the response is read whole.
\<close>

datatype response =
    DoError cause
  | ReadError int cause
  | Response int string

text \<open>
  The events of a call: \<open>Do i\<close> is the call of \<^verbatim>\<open>c.client.Do\<close> in iteration \<open>i\<close>,
  \<open>Warnw n\<close> the log record "retrying failed request" with \<^verbatim>\<open>attempt\<close> \<open>n\<close>,
  \<open>Debugw s\<close> the log record "request completed" with status \<open>s\<close>, and \<open>Sleep d\<close> the
  call \<^verbatim>\<open>time.Sleep(d)\<close>.
\<close>

datatype event = Do nat | Warnw nat | Debugw int | Sleep duration

record 'ctx HttpClient =
  client :: "'ctx request \<Rightarrow> nat \<Rightarrow> response"
  baseDelay :: duration
  maxAttempts :: int

definition emit :: "event list \<Rightarrow> 'a \<times> event list \<Rightarrow> 'a \<times> event list" where
  "emit evs p = (fst p, evs @ snd p)"

subsection \<open>The attempt loop\<close>

text \<open>
  The loop \<^verbatim>\<open>for i := 0; i < attempts; i++\<close> of \<^verbatim>\<open>execReq\<close>, from iteration \<open>i\<close> with
  the current value of \<^verbatim>\<open>lastErr\<close>. Inside the loop \<open>attempts \<ge> 1\<close>, so
  \<^verbatim>\<open>attempts-1\<close> does not wrap around. Iteration \<open>i\<close> is preceded by exactly \<open>i\<close> calls
  of \<^verbatim>\<open>calcBackoff\<close>, so the draw it uses is \<open>rnd i\<close>. The result is what \<^verbatim>\<open>execReq\<close>
  returns (\<open>Inl\<close> an error with a nil body, \<open>Inr\<close> the body with a nil error) and the
  events in the order in which they happen. The deferred \<^verbatim>\<open>resp.Body.Close()\<close> calls
  run when \<^verbatim>\<open>execReq\<close> returns and are not among the events; the time that
  \<^verbatim>\<open>Debugw\<close> logs is not kept.
\<close>

function execReq_loop ::
  "'ctx HttpClient \<Rightarrow> (nat \<Rightarrow> real) \<Rightarrow> 'ctx request \<Rightarrow> int \<Rightarrow> nat \<Rightarrow> goerror option
     \<Rightarrow> (goerror + string) \<times> event list" where
  "execReq_loop c rnd req attempts i lastErr =
     (if int i < attempts then
        (case client c req i of
           DoError err \<Rightarrow>
             (let lastErr' = Errorf ''request failed'' (Cause err) in
              if int i < attempts - 1 then
                (case calcBackoff (int i) (baseDelay c) (rnd i) of
                   None \<Rightarrow> (Inl ShiftPanic, [Do i, Warnw (i + 1)])
                 | Some d \<Rightarrow>
                     emit [Do i, Warnw (i + 1), Sleep d]
                       (execReq_loop c rnd req attempts (Suc i) (Some lastErr')))
              else (Inl lastErr', [Do i]))
         | ReadError status err \<Rightarrow>
             (let lastErr' = Errorf ''reading response'' (Cause err) in
              if int i < attempts - 1 then
                (case calcBackoff (int i) (baseDelay c) (rnd i) of
                   None \<Rightarrow> (Inl ShiftPanic, [Do i, Debugw status])
                 | Some d \<Rightarrow>
                     emit [Do i, Debugw status, Sleep d]
                       (execReq_loop c rnd req attempts (Suc i) (Some lastErr')))
              else (Inl lastErr', [Do i, Debugw status]))
         | Response status body \<Rightarrow>
             if \<not> isSuccessStatus status then
               (let lastErr' = RequestError status body None in
                if int i < attempts - 1 \<and> isRetryableStatusCode status then
                  (case calcBackoff (int i) (baseDelay c) (rnd i) of
                     None \<Rightarrow> (Inl ShiftPanic, [Do i, Debugw status])
                   | Some d \<Rightarrow>
                       emit [Do i, Debugw status, Sleep d]
                         (execReq_loop c rnd req attempts (Suc i) (Some lastErr')))
                else (Inl lastErr', [Do i, Debugw status]))
             else (Inr body, [Do i, Debugw status]))
      else (Inl (ErrorfAttempts attempts lastErr), []))"
  by pat_completeness auto
termination
  by (relation "measure (\<lambda>(c, rnd, req, attempts, i, lastErr). nat (attempts - int i))") auto

declare execReq_loop.simps [simp del]

definition execReq ::
  "'ctx HttpClient \<Rightarrow> (nat \<Rightarrow> real) \<Rightarrow> 'ctx request \<Rightarrow> int \<Rightarrow> (goerror + string) \<times> event list" where
  "execReq c rnd req attempts = execReq_loop c rnd req attempts 0 None"

text \<open>The number of attempts of a call: the calls of the transport among its events.\<close>

fun is_Do :: "event \<Rightarrow> bool" where
  "is_Do (Do i) = True"
| "is_Do _ = False"

definition attempts_performed :: "event list \<Rightarrow> nat" where
  "attempts_performed evs = length (filter is_Do evs)"

text \<open>
  The outcomes after which the loop goes on when iterations remain, read off the three
  \<^verbatim>\<open>continue\<close> statements: a failure of \<^verbatim>\<open>Do\<close>, a failure of reading the body, or a
  non-success status that \<^const>\<open>isRetryableStatusCode\<close> accepts.
\<close>

fun is_failure :: "response \<Rightarrow> bool" where
  "is_failure (DoError err) = True"
| "is_failure (ReadError status err) = True"
| "is_failure (Response status body) = False"

fun retryable_outcome :: "response \<Rightarrow> bool" where
  "retryable_outcome (DoError err) = True"
| "retryable_outcome (ReadError status err) = True"
| "retryable_outcome (Response status body) =
     (\<not> isSuccessStatus status \<and> isRetryableStatusCode status)"

text \<open>The error a failed attempt leaves in \<^verbatim>\<open>lastErr\<close>.\<close>

fun failure_error :: "response \<Rightarrow> goerror" where
  "failure_error (DoError err) = Errorf ''request failed'' (Cause err)"
| "failure_error (ReadError status err) = Errorf ''reading response'' (Cause err)"
| "failure_error (Response status body) = RequestError status body None"

text \<open>What the call returns when the attempt with this outcome is its last one.\<close>

fun outcome_result :: "response \<Rightarrow> goerror + string" where
  "outcome_result (Response status body) =
     (if isSuccessStatus status then Inr body else Inl (RequestError status body None))"
| "outcome_result r = Inl (failure_error r)"

subsection \<open>The method builders with a default header\<close>

text \<open>
  The library functions the builders call: \<^verbatim>\<open>json.Marshal\<close>,
  \<^verbatim>\<open>http.NewRequestWithContext\<close>, \<^verbatim>\<open>url.Values.Encode\<close> and the canonical form of a
  header key that \<^verbatim>\<open>Header.Set\<close> applies (\<^verbatim>\<open>textproto.CanonicalMIMEHeaderKey\<close>).
\<close>

record ('ctx, 'p, 'f) stdlib =
  json_Marshal :: "'p \<Rightarrow> goerror + string"
  NewRequestWithContext :: "'ctx \<Rightarrow> string \<Rightarrow> string \<Rightarrow> string option \<Rightarrow> goerror + 'ctx request"
  Encode :: "'f \<Rightarrow> string"
  CanonicalMIMEHeaderKey :: "string \<Rightarrow> string"

text \<open>\<^verbatim>\<open>req.Header.Set(k, v)\<close>: the canonical key is bound to the one value.\<close>

definition Header_Set ::
  "('ctx, 'p, 'f) stdlib \<Rightarrow> string \<Rightarrow> string \<Rightarrow> 'ctx request \<Rightarrow> 'ctx request" where
  "Header_Set env k v req = req\<lparr>Header := (Header req)(CanonicalMIMEHeaderKey env k \<mapsto> [v])\<rparr>"

text \<open>
  \<^verbatim>\<open>for k, v := range headers { req.Header.Set(k, v) }\<close>: the caller's map is the list
  of its entries in the order in which the run time iterates over it.
\<close>

definition setHeaders ::
  "('ctx, 'p, 'f) stdlib \<Rightarrow> (string \<times> string) list \<Rightarrow> 'ctx request \<Rightarrow> 'ctx request" where
  "setHeaders env headers req = fold (\<lambda>(k, v). Header_Set env k v) headers req"

text \<open>\<^verbatim>\<open>strconv.Itoa\<close> on a length: the decimal digits of a natural number.\<close>

fun Itoa :: "nat \<Rightarrow> string" where
  "Itoa n = (if n < 10 then [char_of (48 + n)] else Itoa (n div 10) @ [char_of (48 + n mod 10)])"

declare Itoa.simps [simp del]

definition PostJsonReq ::
  "('ctx, 'p, 'f) stdlib \<Rightarrow> 'ctx HttpClient \<Rightarrow> (nat \<Rightarrow> real) \<Rightarrow> 'ctx \<Rightarrow> string \<Rightarrow> 'p
     \<Rightarrow> (string \<times> string) list \<Rightarrow> (goerror + string) \<times> event list" where
  "PostJsonReq env c rnd ctx url payload headers =
     (case json_Marshal env payload of
        Inl err \<Rightarrow> (Inl (Errorf ''marshaling JSON'' err), [])
      | Inr jsonBody \<Rightarrow>
          (case NewRequestWithContext env ctx ''POST'' url (Some jsonBody) of
             Inl err \<Rightarrow> (Inl (Errorf ''creating request'' err), [])
           | Inr req \<Rightarrow>
               execReq c rnd
                 (setHeaders env headers
                    (Header_Set env ''Content-Type'' ''application/json'' req))
                 (maxAttempts c)))"

definition PostFormReq ::
  "('ctx, 'p, 'f) stdlib \<Rightarrow> 'ctx HttpClient \<Rightarrow> (nat \<Rightarrow> real) \<Rightarrow> 'ctx \<Rightarrow> string \<Rightarrow> 'f
     \<Rightarrow> (string \<times> string) list \<Rightarrow> (goerror + string) \<times> event list" where
  "PostFormReq env c rnd ctx url formData headers =
     (let encodedData = Encode env formData in
      case NewRequestWithContext env ctx ''POST'' url (Some encodedData) of
        Inl err \<Rightarrow> (Inl (Errorf ''creating request'' err), [])
      | Inr req \<Rightarrow>
          execReq c rnd
            (setHeaders env headers
               (Header_Set env ''Content-Length'' (Itoa (length encodedData))
                  (Header_Set env ''Content-Type'' ''application/x-www-form-urlencoded'' req)))
            (maxAttempts c))"

definition PutJsonReq ::
  "('ctx, 'p, 'f) stdlib \<Rightarrow> 'ctx HttpClient \<Rightarrow> (nat \<Rightarrow> real) \<Rightarrow> 'ctx \<Rightarrow> string \<Rightarrow> 'p
     \<Rightarrow> (string \<times> string) list \<Rightarrow> (goerror + string) \<times> event list" where
  "PutJsonReq env c rnd ctx url payload headers =
     (case json_Marshal env payload of
        Inl err \<Rightarrow> (Inl (Errorf ''marshaling JSON'' err), [])
      | Inr jsonBody \<Rightarrow>
          (case NewRequestWithContext env ctx ''PUT'' url (Some jsonBody) of
             Inl err \<Rightarrow> (Inl (Errorf ''creating request'' err), [])
           | Inr req \<Rightarrow>
               execReq c rnd
                 (setHeaders env headers
                    (Header_Set env ''Content-Type'' ''application/json'' req))
                 (maxAttempts c)))"

definition PatchJsonReq ::
  "('ctx, 'p, 'f) stdlib \<Rightarrow> 'ctx HttpClient \<Rightarrow> (nat \<Rightarrow> real) \<Rightarrow> 'ctx \<Rightarrow> string \<Rightarrow> 'p
     \<Rightarrow> (string \<times> string) list \<Rightarrow> (goerror + string) \<times> event list" where
  "PatchJsonReq env c rnd ctx url payload headers =
     (case json_Marshal env payload of
        Inl err \<Rightarrow> (Inl (Errorf ''marshaling JSON'' err), [])
      | Inr jsonBody \<Rightarrow>
          (case NewRequestWithContext env ctx ''PATCH'' url (Some jsonBody) of
             Inl err \<Rightarrow> (Inl (Errorf ''creating request'' err), [])
           | Inr req \<Rightarrow>
               execReq c rnd
                 (setHeaders env headers
                    (Header_Set env ''Content-Type'' ''application/json'' req))
                 (maxAttempts c)))"

subsection \<open>Example calls\<close>

text \<open>
  A request, a sequence of draws, four transports (one that refuses every connection,
  one whose caller has cancelled the context, one that fails twice and then answers
  200, one that answers 404) and a library whose functions do nothing that could fail.
\<close>

definition getReq :: "unit request" where
  "getReq = \<lparr>req_ctx = (), Method = ''GET'', URL = ''http://upstream/'',
     Header = Map.empty, req_body = None\<rparr>"

definition halves :: "nat \<Rightarrow> real" where
  "halves i = 1 / 2"

definition refusing :: "unit HttpClient" where
  "refusing = \<lparr>client = (\<lambda>req i. DoError (Other ''connection refused'')),
     baseDelay = second, maxAttempts = 3\<rparr>"

definition cancelled :: "unit HttpClient" where
  "cancelled = \<lparr>client = (\<lambda>req i. DoError ContextCanceled),
     baseDelay = second, maxAttempts = 3\<rparr>"

definition flaky :: "unit HttpClient" where
  "flaky = \<lparr>client = (\<lambda>req i. if i < 2 then DoError (Other ''connection refused'')
       else Response 200 ''ok''),
     baseDelay = second, maxAttempts = 3\<rparr>"

definition notFound :: "unit HttpClient" where
  "notFound = \<lparr>client = (\<lambda>req i. Response 404 ''not found''),
     baseDelay = second, maxAttempts = 3\<rparr>"

definition plainLib :: "(unit, string, string) stdlib" where
  "plainLib = \<lparr>json_Marshal = (\<lambda>payload. Inr payload),
     NewRequestWithContext = (\<lambda>ctx method url body.
       Inr \<lparr>req_ctx = ctx, Method = method, URL = url, Header = Map.empty, req_body = body\<rparr>),
     Encode = (\<lambda>formData. formData),
     CanonicalMIMEHeaderKey = (\<lambda>k. k)\<rparr>"

section \<open>Properties\<close>

subsection \<open>The backoff calculator\<close>

lemma calcBackoff_Some: "0 \<le> attempt \<Longrightarrow> \<exists>d. calcBackoff attempt b r = Some d"
  by (simp add: calcBackoff_def Let_def)

lemma calcBackoff_loop_index: "\<exists>d. calcBackoff (int i) b r = Some d"
  by (rule calcBackoff_Some) simp

lemma trunc_small: "- 1 < x \<Longrightarrow> x < 1 \<Longrightarrow> trunc_toward_zero x = 0"
  unfolding trunc_toward_zero_def
  by (simp add: floor_eq_iff ceiling_eq_iff)

lemma jitter_factor_zero:
  assumes "0 \<le> r" "r < 1"
  shows "float_to_duration (r * 0.4 - 0.2) = 0"
proof -
  have "- 1 < r * 0.4 - 0.2" "r * 0.4 - 0.2 < 1"
    using assms by simp_all
  then show ?thesis
    unfolding float_to_duration_def by (simp only: trunc_small) simp
qed

lemma calcBackoff_no_jitter:
  assumes "0 \<le> r" "r < 1" "0 \<le> attempt"
  shows "calcBackoff attempt b r =
    Some (if 30 * second <s b * push_bit (nat attempt) 1 then 30 * second
          else b * push_bit (nat attempt) 1)"
proof -
  have j: "float_to_duration (r * 0.4 - 0.2) = 0"
    using assms(1,2) by (rule jitter_factor_zero)
  show ?thesis
    unfolding calcBackoff_def Let_def j using assms(3) by simp
qed

lemma sint_nominal:
  assumes "- (2 ^ 63) \<le> sint b * 2 ^ n" "sint b * 2 ^ n < 2 ^ 63"
  shows "sint (b * push_bit n 1 :: duration) = sint b * 2 ^ n"
proof -
  have "b * push_bit n 1 = (word_of_int (sint b * 2 ^ n) :: duration)"
    by (simp add: push_bit_eq_mult)
  then have "sint (b * push_bit n 1 :: duration) = signed_take_bit 63 (sint b * 2 ^ n)"
    by (simp only: sint_sbintrunc') simp
  with assms show ?thesis
    by (simp add: signed_take_bit_int_eq_self)
qed

lemma sint_cap: "sint (30 * second) = 30000000000"
  by (simp add: second_def)

lemma calcBackoff_exact:
  assumes "0 \<le> r" "r < 1" "0 \<le> attempt"
    and "- (2 ^ 63) \<le> sint b * 2 ^ nat attempt" "sint b * 2 ^ nat attempt < 2 ^ 63"
  shows "map_option sint (calcBackoff attempt b r) = Some (min (sint b * 2 ^ nat attempt) 30000000000)"
proof -
  have n: "sint (b * push_bit (nat attempt) 1) = sint b * 2 ^ nat attempt"
    using assms(4,5) by (rule sint_nominal)
  show ?thesis
    unfolding calcBackoff_no_jitter [OF assms(1,2,3)] word_sless_alt n sint_cap
    using n by (simp add: min_def sint_cap)
qed

text \<open>
  Claim C3 says that every call multiplies the nominal delay \<open>base * 2 ^ attempt\<close> by a
  fresh random factor in \<open>[0.8, 1.2]\<close>, so that the delay is not a function of the
  attempt and the base alone. The code converts the factor's offset
  \<^verbatim>\<open>rand.Float64()*0.4-0.2\<close> to an integer duration before it multiplies, and the
  conversion of a value in \<open>[-0.2, 0.2)\<close> is 0: whatever two draws in \<open>[0, 1)\<close> are,
  \<^verbatim>\<open>calcBackoff\<close> returns the same delay for both.
\<close>

theorem calcBackoff_ignores_draw:
  assumes "0 \<le> r" "r < 1" "0 \<le> r'" "r' < 1"
  shows "calcBackoff attempt b r = calcBackoff attempt b r'"
proof (cases "0 \<le> attempt")
  case True
  with assms show ?thesis
    by (simp only: calcBackoff_no_jitter)
next
  case False
  then show ?thesis
    by (simp add: calcBackoff_def)
qed

text \<open>At attempt 0 with a base of one second, the draws 0 and 0.99 both give one second.\<close>

theorem calcBackoff_ignores_draw_witness:
  "(0::real) \<le> 0 \<and> (0::real) < 1 \<and> (0::real) \<le> 99 / 100 \<and> (99 / 100 :: real) < 1 \<and>
   calcBackoff 0 second 0 = Some second \<and> calcBackoff 0 second (99 / 100) = Some second"
proof -
  have "calcBackoff 0 second 0 = calcBackoff 0 second (99 / 100)"
    by (rule calcBackoff_ignores_draw) simp_all
  moreover have "calcBackoff 0 second 0 = Some second"
    by (simp add: calcBackoff_no_jitter second_def word_sless_alt)
  ultimately show ?thesis by simp
qed

text \<open>
  Claim C4 says that for every attempt \<open>i \<ge> 0\<close> and base \<open>b > 0\<close> the delay lies in
  \<open>[0.8 * b * 2 ^ i, 1.2 * b * 2 ^ i]\<close> clamped to \<open>[0, 30 s]\<close>, is never negative, and that
  large attempts do not overflow. As stated it fails: the product is an \<^verbatim>\<open>int64\<close>
  product, and at attempt 54 with a base of one second it wraps around to the least
  \<^verbatim>\<open>int64\<close>, which is below the cap and is returned.
\<close>

theorem calcBackoff_overflow_counterexample:
  "(0::int) \<le> 54 \<and> 0 < sint second \<and>
   calcBackoff 54 second 0 = Some 9223372036854775808 \<and>
   sint (9223372036854775808 :: duration) = - 9223372036854775808"
  by (simp add: calcBackoff_no_jitter second_def word_sless_alt)

text \<open>
  Claim C4 as amended: for every attempt \<open>i \<ge> 0\<close> and base \<open>b > 0\<close> whose nominal delay
  \<open>b * 2 ^ i\<close> fits an \<^verbatim>\<open>int64\<close>, the call returns a delay that is not negative, is at
  most 30 seconds, lies in \<open>[0.8 * b * 2 ^ i, 1.2 * b * 2 ^ i]\<close> clamped to \<open>[0, 30 s]\<close> (the
  bounds are written ten-fold, in integers), and is the cap itself when the nominal
  delay is above it.
\<close>

theorem calcBackoff_bounds:
  assumes "0 \<le> attempt" "0 < sint b" "sint b * 2 ^ nat attempt < 2 ^ 63" "0 \<le> r" "r < 1"
  shows "\<exists>d. calcBackoff attempt b r = Some d \<and>
           0 \<le> sint d \<and> sint d \<le> sint (30 * second) \<and>
           min (8 * (sint b * 2 ^ nat attempt)) (10 * sint (30 * second)) \<le> 10 * sint d \<and>
           10 * sint d \<le> min (12 * (sint b * 2 ^ nat attempt)) (10 * sint (30 * second)) \<and>
           (sint (30 * second) < sint b * 2 ^ nat attempt \<longrightarrow> d = 30 * second)"
proof -
  define n where "n = sint b * 2 ^ nat attempt"
  have pos: "0 < n" using assms(2) by (simp add: n_def)
  then have lo: "- (2 ^ 63) \<le> n" by simp
  have hi: "n < 2 ^ 63" using assms(3) by (simp add: n_def)
  obtain d where d: "calcBackoff attempt b r = Some d"
    using calcBackoff_Some [OF assms(1)] by blast
  from calcBackoff_exact [OF assms(4,5,1) lo [unfolded n_def] hi [unfolded n_def]] d
  have s: "sint d = min n 30000000000" by (simp add: n_def)
  have c: "sint (30 * second) = 30000000000" by (rule sint_cap)
  have 1: "0 \<le> sint d" using s pos by simp
  have 2: "sint d \<le> sint (30 * second)" using s c by simp
  have 3: "min (8 * n) (10 * sint (30 * second)) \<le> 10 * sint d"
    unfolding s c using pos by (simp add: min_def)
  have 4: "10 * sint d \<le> min (12 * n) (10 * sint (30 * second))"
    unfolding s c using pos by (simp add: min_def)
  have 5: "d = 30 * second" if "sint (30 * second) < n"
  proof -
    from that s c have "sint d = sint (30 * second)" by simp
    then show ?thesis by (rule signed_word_eqI)
  qed
  from d 1 2 3 4 5 show ?thesis
    unfolding n_def by blast
qed

text \<open>Attempt 5 on a base of one second is capped; attempt 2 gives four seconds.\<close>

theorem calcBackoff_bounds_witness:
  "(0::int) \<le> 5 \<and> 0 < sint second \<and> sint second * 2 ^ nat 5 < 2 ^ 63 \<and>
   calcBackoff 5 second (1 / 2) = Some (30 * second) \<and>
   calcBackoff 2 second (1 / 2) = Some (4 * second) "
proof -
  have h: "0 < sint second" "sint second * 2 ^ nat 5 < 2 ^ 63"
    by (simp_all add: second_def)
  have "sint (30 * second) < sint second * 2 ^ nat 5"
    by (simp add: second_def)
  with calcBackoff_bounds [of 5 second "1 / 2", OF _ h]
  have "calcBackoff 5 second (1 / 2) = Some (30 * second)" by auto
  moreover have "calcBackoff 2 second (1 / 2) = Some (4 * second)"
    by (simp add: calcBackoff_no_jitter second_def word_sless_alt)
  ultimately show ?thesis using h by simp
qed

text \<open>
  Claim C10: where the nominal delay \<open>b * 2 ^ i\<close> fits an \<^verbatim>\<open>int64\<close>, the jitter factor
  \<^verbatim>\<open>time.Duration(rand.Float64()*0.4-0.2)\<close> is zero for every draw in \<open>[0, 1)\<close>, and
  the delay is \<open>min (b * 2 ^ i) (30 s)\<close>, whatever the draw.
\<close>

theorem calcBackoff_deterministic:
  assumes "0 \<le> attempt"
    and "- (2 ^ 63) \<le> sint b * 2 ^ nat attempt" "sint b * 2 ^ nat attempt < 2 ^ 63"
    and "0 \<le> r" "r < 1"
  shows "float_to_duration (r * 0.4 - 0.2) = 0 \<and>
         map_option sint (calcBackoff attempt b r) =
           Some (min (sint b * 2 ^ nat attempt) (sint (30 * second)))"
proof
  show "float_to_duration (r * 0.4 - 0.2) = 0"
    using assms(4,5) by (rule jitter_factor_zero)
  show "map_option sint (calcBackoff attempt b r) =
           Some (min (sint b * 2 ^ nat attempt) (sint (30 * second)))"
    unfolding sint_cap using assms(4,5,1,2,3) by (rule calcBackoff_exact)
qed

text \<open>Attempt 1 on a base of one second gives two seconds for the draws 0.1 and 0.9.\<close>

theorem calcBackoff_deterministic_witness:
  "(0::int) \<le> 1 \<and> - (2 ^ 63) \<le> sint second * 2 ^ nat 1 \<and> sint second * 2 ^ nat 1 < 2 ^ 63 \<and>
   map_option sint (calcBackoff 1 second (1 / 10)) = Some 2000000000 \<and>
   map_option sint (calcBackoff 1 second (9 / 10)) = Some 2000000000"
proof -
  have h: "- (2 ^ 63) \<le> sint second * 2 ^ nat 1" "sint second * 2 ^ nat 1 < 2 ^ 63"
    by (simp_all add: second_def)
  have v: "min (sint second * 2 ^ nat 1) (sint (30 * second)) = 2000000000"
    by (simp add: second_def)
  from calcBackoff_deterministic [of 1 second "1 / 10", OF _ h]
    calcBackoff_deterministic [of 1 second "9 / 10", OF _ h]
  show ?thesis using h unfolding v by simp
qed

subsection \<open>The status classifier\<close>

text \<open>
  Claim C1 says that the codes of \<open>{429, 503, 504} \<union> [500, 599]\<close> are retryable and every
  other non-2xx code is terminal. As stated it fails at 600, a three-digit code outside
  that set and outside 2xx, which the test \<^verbatim>\<open>code >= 500\<close> accepts.
\<close>

theorem isRetryableStatusCode_600_counterexample:
  "isRetryableStatusCode 600 \<and> 600 \<notin> {429, 503, 504} \<union> {500..599 :: int} \<and> \<not> isSuccessStatus 600"
  by (simp add: isRetryableStatusCode_def isSuccessStatus_def)

text \<open>
  Claim C1 as amended: a code is retryable exactly when it is in
  \<open>{429, 503, 504} \<union> [500, 599]\<close> or is 600 or more; every other code, so every non-2xx
  code below 500 but 429, is terminal.
\<close>

theorem isRetryableStatusCode_iff:
  "isRetryableStatusCode code \<longleftrightarrow> code \<in> {429, 503, 504} \<union> {500..599} \<or> 600 \<le> code"
  unfolding isRetryableStatusCode_def StatusTooManyRequests_def
    StatusServiceUnavailable_def StatusGatewayTimeout_def
  by auto

subsection \<open>One iteration of the attempt loop\<close>

lemma attempts_performed_simps [simp]:
  "attempts_performed [] = 0"
  "attempts_performed (Do i # evs) = Suc (attempts_performed evs)"
  "attempts_performed (Warnw n # evs) = attempts_performed evs"
  "attempts_performed (Debugw s # evs) = attempts_performed evs"
  "attempts_performed (Sleep d # evs) = attempts_performed evs"
  by (simp_all add: attempts_performed_def)

lemma loop_stop:
  "\<not> int i < attempts \<Longrightarrow>
     execReq_loop c rnd req attempts i lastErr = (Inl (ErrorfAttempts attempts lastErr), [])"
  by (simp add: execReq_loop.simps)

lemma loop_terminal:
  "int i < attempts \<Longrightarrow> client c req i = Response status body \<Longrightarrow>
   \<not> retryable_outcome (client c req i) \<Longrightarrow>
     execReq_loop c rnd req attempts i lastErr =
       (if isSuccessStatus status then Inr body else Inl (RequestError status body None),
        [Do i, Debugw status])"
  by (subst execReq_loop.simps) (auto simp: Let_def)

lemma loop_retry:
  assumes a: "int i < attempts - 1" and r: "retryable_outcome (client c req i)"
  shows "\<exists>d e. calcBackoff (int i) (baseDelay c) (rnd i) = Some d \<and> \<not> is_Do e \<and>
       execReq_loop c rnd req attempts i lastErr =
         emit [Do i, e, Sleep d]
           (execReq_loop c rnd req attempts (Suc i) (Some (failure_error (client c req i))))"
proof -
  obtain d where d: "calcBackoff (int i) (baseDelay c) (rnd i) = Some d"
    using calcBackoff_loop_index by blast
  show ?thesis
  proof (cases "client c req i")
    case (DoError err)
    with a d have "execReq_loop c rnd req attempts i lastErr =
         emit [Do i, Warnw (i + 1), Sleep d]
           (execReq_loop c rnd req attempts (Suc i) (Some (failure_error (client c req i))))"
      by (subst execReq_loop.simps) simp
    with d show ?thesis
      by (intro exI [of _ d] exI [of _ "Warnw (i + 1)"]) simp
  next
    case (ReadError status err)
    with a d have "execReq_loop c rnd req attempts i lastErr =
         emit [Do i, Debugw status, Sleep d]
           (execReq_loop c rnd req attempts (Suc i) (Some (failure_error (client c req i))))"
      by (subst execReq_loop.simps) simp
    with d show ?thesis
      by (intro exI [of _ d] exI [of _ "Debugw status"]) simp
  next
    case (Response status body)
    with a d r have "execReq_loop c rnd req attempts i lastErr =
         emit [Do i, Debugw status, Sleep d]
           (execReq_loop c rnd req attempts (Suc i) (Some (failure_error (client c req i))))"
      by (subst execReq_loop.simps) simp
    with d show ?thesis
      by (intro exI [of _ d] exI [of _ "Debugw status"]) simp
  qed
qed

lemma snd_emit [simp]: "snd (emit evs p) = evs @ snd p"
  by (simp add: emit_def)

lemma fst_emit [simp]: "fst (emit evs p) = fst p"
  by (simp add: emit_def)

lemma attempts_performed_append [simp]:
  "attempts_performed (xs @ ys) = attempts_performed xs + attempts_performed ys"
  by (simp add: attempts_performed_def)

lemma loop_final:
  assumes "int i < attempts"
    and "\<not> (int i < attempts - 1 \<and> retryable_outcome (client c req i))"
  shows "\<exists>evs. execReq_loop c rnd req attempts i lastErr = (outcome_result (client c req i), evs) \<and>
           filter is_Do evs = [Do i]"
  using assms
  by (subst execReq_loop.simps) (auto simp: Let_def split: response.splits)

lemma loop_events:
  "\<exists>n. filter is_Do (snd (execReq_loop c rnd req attempts i lastErr)) = map Do [i..<i + n] \<and>
       int n \<le> max 0 (attempts - int i) \<and>
       (\<forall>j. i \<le> j \<and> Suc j < i + n \<longrightarrow> retryable_outcome (client c req j))"
proof (induction "nat (attempts - int i)" arbitrary: i lastErr)
  case 0
  then have "\<not> int i < attempts" by simp
  then show ?case
    by (intro exI [of _ 0]) (auto simp: loop_stop)
next
  case (Suc m)
  then have lt: "int i < attempts" by linarith
  show ?case
  proof (cases "int i < attempts - 1 \<and> retryable_outcome (client c req i)")
    case False
    from loop_final [OF lt False, of rnd lastErr] obtain evs where
      "execReq_loop c rnd req attempts i lastErr = (outcome_result (client c req i), evs)"
      "filter is_Do evs = [Do i]" by blast
    with lt show ?thesis
      by (intro exI [of _ 1]) auto
  next
    case True
    then have a: "int i < attempts - 1" and r: "retryable_outcome (client c req i)"
      by simp_all
    from loop_retry [OF a r, of rnd lastErr] obtain d e where
      e: "\<not> is_Do e"
      and l: "execReq_loop c rnd req attempts i lastErr =
         emit [Do i, e, Sleep d] (execReq_loop c rnd req attempts (Suc i)
           (Some (failure_error (client c req i))))" by blast
    from Suc(2) have "m = nat (attempts - int (Suc i))" by simp
    from Suc(1) [OF this, of "Some (failure_error (client c req i))"] obtain n where
      n1: "filter is_Do (snd (execReq_loop c rnd req attempts (Suc i)
              (Some (failure_error (client c req i))))) = map Do [Suc i..<Suc i + n]"
      and n2: "int n \<le> max 0 (attempts - int (Suc i))"
      and n3: "\<forall>j. Suc i \<le> j \<and> Suc j < Suc i + n \<longrightarrow> retryable_outcome (client c req j)"
      by blast
    have "filter is_Do (snd (execReq_loop c rnd req attempts i lastErr)) = map Do [i..<i + Suc n]"
      using e n1 by (simp add: l upt_conv_Cons)
    moreover have "int (Suc n) \<le> max 0 (attempts - int i)"
      using n2 a by simp
    moreover have "\<forall>j. i \<le> j \<and> Suc j < i + Suc n \<longrightarrow> retryable_outcome (client c req j)"
    proof (intro allI impI)
      fix j assume j: "i \<le> j \<and> Suc j < i + Suc n"
      show "retryable_outcome (client c req j)"
      proof (cases "j = i")
        case True with r show ?thesis by simp
      next
        case False
        with j have "Suc i \<le> j \<and> Suc j < Suc i + n" by simp
        with n3 show ?thesis by blast
      qed
    qed
    ultimately show ?thesis by blast
  qed
qed

lemma Do_in_single:
  "filter is_Do evs = [Do i] \<Longrightarrow> Do j \<in> set evs \<longleftrightarrow> j = i"
proof -
  assume a: "filter is_Do evs = [Do i]"
  have "Do j \<in> set evs \<longleftrightarrow> Do j \<in> set (filter is_Do evs)" by simp
  with a show ?thesis by simp
qed

lemma attempts_performed_single:
  "filter is_Do evs = [Do i] \<Longrightarrow> attempts_performed evs = 1"
  by (simp add: attempts_performed_def)

lemma is_failure_retryable: "is_failure r \<Longrightarrow> retryable_outcome r"
  by (cases r) simp_all

lemma is_failure_result: "is_failure r \<Longrightarrow> outcome_result r = Inl (failure_error r)"
  by (cases r) simp_all

text \<open>
  Retryable outcomes up to attempt \<open>k\<close>, then an outcome that ends the call: the call
  returns what attempt \<open>k\<close> gives, after the attempts from \<open>i\<close> to \<open>k\<close>.
\<close>

lemma loop_failures_then:
  assumes "int k < attempts" "i \<le> k"
    and "\<forall>j. i \<le> j \<and> j < k \<longrightarrow> retryable_outcome (client c req j)"
    and "\<not> (int k < attempts - 1 \<and> retryable_outcome (client c req k))"
  shows "fst (execReq_loop c rnd req attempts i lastErr) = outcome_result (client c req k) \<and>
         attempts_performed (snd (execReq_loop c rnd req attempts i lastErr)) = Suc k - i"
  using assms(2,3)
proof (induction "k - i" arbitrary: i lastErr)
  case 0
  then have "i = k" by simp
  from assms(1) assms(4) have "\<exists>evs. execReq_loop c rnd req attempts k lastErr =
      (outcome_result (client c req k), evs) \<and> filter is_Do evs = [Do k]"
    by (rule loop_final)
  with \<open>i = k\<close> show ?case
    by (auto simp: attempts_performed_single)
next
  case (Suc m)
  then have lt: "i < k" by simp
  with assms(1) have a: "int i < attempts - 1" by simp
  from Suc(4) lt have r: "retryable_outcome (client c req i)" by simp
  from loop_retry [OF a r, of rnd lastErr] obtain d e where
    e: "\<not> is_Do e"
    and l: "execReq_loop c rnd req attempts i lastErr =
       emit [Do i, e, Sleep d] (execReq_loop c rnd req attempts (Suc i)
         (Some (failure_error (client c req i))))" by blast
  have "m = k - Suc i" using Suc(2) by simp
  moreover have "Suc i \<le> k" using lt by simp
  moreover have "\<forall>j. Suc i \<le> j \<and> j < k \<longrightarrow> retryable_outcome (client c req j)"
    using Suc(4) by simp
  ultimately have
    "fst (execReq_loop c rnd req attempts (Suc i) (Some (failure_error (client c req i)))) =
       outcome_result (client c req k) \<and>
     attempts_performed (snd (execReq_loop c rnd req attempts (Suc i)
       (Some (failure_error (client c req i))))) = Suc k - Suc i"
    by (rule Suc(1))
  with e lt show ?case
    by (simp add: l attempts_performed_def)
qed

lemma execReq_all_fail:
  assumes "1 \<le> attempts"
    and "\<forall>i. int i < attempts \<longrightarrow> is_failure (client c req i)"
  shows "fst (execReq c rnd req attempts) = Inl (failure_error (client c req (nat attempts - 1))) \<and>
         attempts_performed (snd (execReq c rnd req attempts)) = nat attempts"
proof -
  let ?k = "nat attempts - 1"
  have k: "int ?k < attempts" "\<not> int ?k < attempts - 1" using assms(1) by simp_all
  have "\<forall>j. 0 \<le> j \<and> j < ?k \<longrightarrow> retryable_outcome (client c req j)"
    using assms(2) by (auto intro: is_failure_retryable)
  with k have
    "fst (execReq_loop c rnd req attempts 0 None) = outcome_result (client c req ?k) \<and>
     attempts_performed (snd (execReq_loop c rnd req attempts 0 None)) = Suc ?k - 0"
    by (intro loop_failures_then) simp_all
  moreover have "is_failure (client c req ?k)" using assms(2) k(1) by blast
  ultimately show ?thesis
    using assms(1) by (simp add: execReq_def is_failure_result)
qed

lemma execReq_events:
  "\<exists>n. filter is_Do (snd (execReq c rnd req attempts)) = map Do [0..<n] \<and>
       int n \<le> max 0 attempts \<and>
       (\<forall>j. Suc j < n \<longrightarrow> retryable_outcome (client c req j))"
  using loop_events [of c rnd req attempts 0 None] by (simp add: execReq_def)

lemma Do_in_upt:
  "filter is_Do evs = map Do [0..<n] \<Longrightarrow> Do j \<in> set evs \<longleftrightarrow> j < n"
proof -
  assume a: "filter is_Do evs = map Do [0..<n]"
  have "Do j \<in> set evs \<longleftrightarrow> Do j \<in> set (filter is_Do evs)" by simp
  with a show ?thesis by auto
qed

lemma attempts_performed_upt:
  "filter is_Do evs = map Do [0..<n] \<Longrightarrow> attempts_performed evs = n"
  by (simp add: attempts_performed_def)

lemma loop_first:
  assumes "int i < attempts"
  shows "\<exists>ys. snd (execReq_loop c rnd req attempts i lastErr) = Do i # ys"
proof (cases "int i < attempts - 1 \<and> retryable_outcome (client c req i)")
  case True
  then obtain d e where "execReq_loop c rnd req attempts i lastErr =
       emit [Do i, e, Sleep d] (execReq_loop c rnd req attempts (Suc i)
         (Some (failure_error (client c req i))))"
    using loop_retry [of i attempts c req rnd lastErr] by blast
  then show ?thesis by simp
next
  case False
  with assms show ?thesis
    by (subst execReq_loop.simps) (auto simp: Let_def split: response.splits)
qed

text \<open>
  An attempt with a retryable outcome that is not the last iteration is followed by the
  sleep of its backoff and, next, by the following attempt.
\<close>

lemma loop_sleep_then_retry:
  assumes "Do j \<in> set (snd (execReq_loop c rnd req attempts i lastErr))"
    and "int j < attempts - 1" "retryable_outcome (client c req j)"
  shows "\<exists>d xs ys. calcBackoff (int j) (baseDelay c) (rnd j) = Some d \<and>
           snd (execReq_loop c rnd req attempts i lastErr) = xs @ Sleep d # Do (Suc j) # ys"
  using assms(1)
proof (induction "nat (attempts - int i)" arbitrary: i lastErr)
  case 0
  then have "\<not> int i < attempts" by simp
  with 0(2) show ?case by (simp add: loop_stop)
next
  case (Suc m)
  then have lt: "int i < attempts" by linarith
  show ?case
  proof (cases "int i < attempts - 1 \<and> retryable_outcome (client c req i)")
    case False
    from loop_final [OF lt False, of rnd lastErr] obtain evs where
      "execReq_loop c rnd req attempts i lastErr = (outcome_result (client c req i), evs)"
      "filter is_Do evs = [Do i]" by blast
    with Suc(3) have "j = i" by (simp add: Do_in_single)
    with False assms(2,3) show ?thesis by simp
  next
    case True
    then have a: "int i < attempts - 1" and r: "retryable_outcome (client c req i)"
      by simp_all
    let ?rest = "execReq_loop c rnd req attempts (Suc i) (Some (failure_error (client c req i)))"
    from loop_retry [OF a r, of rnd lastErr] obtain d e where
      d: "calcBackoff (int i) (baseDelay c) (rnd i) = Some d"
      and e: "\<not> is_Do e"
      and l: "execReq_loop c rnd req attempts i lastErr = emit [Do i, e, Sleep d] ?rest"
      by blast
    show ?thesis
    proof (cases "j = i")
      case True
      from a have "int (Suc i) < attempts" by simp
      then obtain ys where "snd ?rest = Do (Suc i) # ys"
        using loop_first by blast
      then have "snd (execReq_loop c rnd req attempts i lastErr) =
          [Do i, e] @ Sleep d # Do (Suc i) # ys"
        by (simp add: l)
      with d True show ?thesis by blast
    next
      case False
      have "e \<noteq> Do j" using e by auto
      with Suc(3) False have "Do j \<in> set (snd ?rest)"
        by (simp add: l)
      moreover have "m = nat (attempts - int (Suc i))" using Suc(2) by simp
      ultimately obtain d' xs ys where
        "calcBackoff (int j) (baseDelay c) (rnd j) = Some d'"
        "snd ?rest = xs @ Sleep d' # Do (Suc j) # ys"
        using Suc(1) by blast
      then have "calcBackoff (int j) (baseDelay c) (rnd j) = Some d' \<and>
          snd (execReq_loop c rnd req attempts i lastErr) =
            ([Do i, e, Sleep d] @ xs) @ Sleep d' # Do (Suc j) # ys"
        by (simp add: l)
      then show ?thesis by blast
    qed
  qed
qed

text \<open>
  An attempt that is the last iteration, or whose outcome is not retryable, decides the
  result of the call.
\<close>

lemma loop_last_result:
  assumes "Do j \<in> set (snd (execReq_loop c rnd req attempts i lastErr))"
    and "\<not> (int j < attempts - 1 \<and> retryable_outcome (client c req j))"
  shows "fst (execReq_loop c rnd req attempts i lastErr) = outcome_result (client c req j)"
  using assms(1)
proof (induction "nat (attempts - int i)" arbitrary: i lastErr)
  case 0
  then have "\<not> int i < attempts" by simp
  with 0(2) show ?case by (simp add: loop_stop)
next
  case (Suc m)
  then have lt: "int i < attempts" by linarith
  show ?case
  proof (cases "int i < attempts - 1 \<and> retryable_outcome (client c req i)")
    case False
    from loop_final [OF lt False, of rnd lastErr] obtain evs where
      l: "execReq_loop c rnd req attempts i lastErr = (outcome_result (client c req i), evs)"
      and "filter is_Do evs = [Do i]" by blast
    with Suc(3) have "j = i" by (simp add: Do_in_single)
    with l show ?thesis by simp
  next
    case True
    then have a: "int i < attempts - 1" and r: "retryable_outcome (client c req i)"
      by simp_all
    let ?rest = "execReq_loop c rnd req attempts (Suc i) (Some (failure_error (client c req i)))"
    from loop_retry [OF a r, of rnd lastErr] obtain d e where
      e: "\<not> is_Do e"
      and l: "execReq_loop c rnd req attempts i lastErr = emit [Do i, e, Sleep d] ?rest"
      by blast
    from True assms(2) have "j \<noteq> i" by blast
    moreover have "e \<noteq> Do j" using e by auto
    ultimately have "Do j \<in> set (snd ?rest)"
      using Suc(3) by (simp add: l)
    moreover have "m = nat (attempts - int (Suc i))" using Suc(2) by simp
    ultimately have "fst ?rest = outcome_result (client c req j)"
      by (rule Suc(1) [rotated])
    then show ?thesis by (simp add: l)
  qed
qed

text \<open>The loop calls \<^verbatim>\<open>calcBackoff\<close> with its counter only, so the shift never panics.\<close>

lemma outcome_result_no_panic: "outcome_result r \<noteq> Inl ShiftPanic"
  by (cases r) simp_all

lemma loop_no_panic: "fst (execReq_loop c rnd req attempts i lastErr) \<noteq> Inl ShiftPanic"
proof (induction "nat (attempts - int i)" arbitrary: i lastErr)
  case 0
  then have "\<not> int i < attempts" by simp
  then show ?case by (simp add: loop_stop)
next
  case (Suc m)
  then have lt: "int i < attempts" by linarith
  show ?case
  proof (cases "int i < attempts - 1 \<and> retryable_outcome (client c req i)")
    case False
    from loop_final [OF lt False, of rnd lastErr] show ?thesis
      by (auto simp: outcome_result_no_panic)
  next
    case True
    then obtain d e where "execReq_loop c rnd req attempts i lastErr =
        emit [Do i, e, Sleep d] (execReq_loop c rnd req attempts (Suc i)
          (Some (failure_error (client c req i))))"
      using loop_retry [of i attempts c req rnd lastErr] by blast
    moreover have "m = nat (attempts - int (Suc i))" using Suc(2) by simp
    ultimately show ?thesis using Suc(1) by simp
  qed
qed

subsection \<open>The example calls, evaluated\<close>

lemma calcBackoff_0_second: "calcBackoff 0 second (1 / 2) = Some second"
  by (simp add: calcBackoff_no_jitter second_def word_sless_alt)

lemma calcBackoff_1_second: "calcBackoff 1 second (1 / 2) = Some (2 * second)"
  by (simp add: calcBackoff_no_jitter second_def word_sless_alt)

lemmas example_simps =
  execReq_def execReq_loop.simps emit_def halves_def
  calcBackoff_0_second calcBackoff_1_second isSuccessStatus_def isRetryableStatusCode_def
  StatusTooManyRequests_def StatusServiceUnavailable_def StatusGatewayTimeout_def

lemma execReq_refusing:
  "execReq refusing halves getReq 3 =
    (Inl (Errorf ''request failed'' (Cause (Other ''connection refused''))),
     [Do 0, Warnw 1, Sleep second, Do 1, Warnw 2, Sleep (2 * second), Do 2])"
  by (simp add: example_simps refusing_def)

lemma execReq_notFound:
  "execReq notFound halves getReq 3 =
    (Inl (RequestError 404 ''not found'' None), [Do 0, Debugw 404])"
  by (simp add: example_simps notFound_def)

lemma execReq_flaky:
  "execReq flaky halves getReq 3 =
    (Inr ''ok'', [Do 0, Warnw 1, Sleep second, Do 1, Warnw 2, Sleep (2 * second), Do 2, Debugw 200])"
  by (simp add: example_simps flaky_def)

subsection \<open>The executor\<close>

text \<open>
  Claim C8: a call performs at most \<^verbatim>\<open>attempts\<close> attempts (none when \<^verbatim>\<open>attempts\<close> is
  zero or negative), every attempt \<open>j\<close> it performs has \<open>j < attempts\<close>, and an attempt
  whose outcome is not retryable (a 2xx response, or a non-success status that the
  classifier rejects) is the last attempt of the call.
\<close>

theorem execReq_attempt_budget:
  "int (attempts_performed (snd (execReq c rnd req attempts))) \<le> max 0 attempts \<and>
   (Do j \<in> set (snd (execReq c rnd req attempts)) \<longrightarrow> int j < attempts) \<and>
   (Do j \<in> set (snd (execReq c rnd req attempts)) \<and> \<not> retryable_outcome (client c req j) \<longrightarrow>
      attempts_performed (snd (execReq c rnd req attempts)) = Suc j \<and>
      (\<forall>j'. Do j' \<in> set (snd (execReq c rnd req attempts)) \<longrightarrow> j' \<le> j))"
proof -
  let ?evs = "snd (execReq c rnd req attempts)"
  from execReq_events [of c rnd req attempts] obtain n where
    e: "filter is_Do ?evs = map Do [0..<n]"
    and b: "int n \<le> max 0 attempts"
    and r: "\<forall>j. Suc j < n \<longrightarrow> retryable_outcome (client c req j)" by blast
  have n: "attempts_performed ?evs = n"
    using e by (rule attempts_performed_upt)
  have d: "Do j \<in> set ?evs \<longleftrightarrow> j < n" for j
    using e by (rule Do_in_upt)
  have 1: "int (attempts_performed ?evs) \<le> max 0 attempts"
    using n b by simp
  have 2: "int j < attempts" if "Do j \<in> set ?evs"
    using that d b by (simp add: max_def split: if_splits)
  have 3: "attempts_performed ?evs = Suc j \<and> (\<forall>j'. Do j' \<in> set ?evs \<longrightarrow> j' \<le> j)"
    if "Do j \<in> set ?evs" "\<not> retryable_outcome (client c req j)"
  proof -
    from that(1) have "j < n" by (simp add: d)
    moreover from that(2) r have "\<not> Suc j < n" by blast
    ultimately have "n = Suc j" by simp
    then show ?thesis using n d by auto
  qed
  from 1 2 3 show ?thesis by blast
qed

text \<open>The transport that answers 404: one attempt out of three, and no second one.\<close>

theorem execReq_attempt_budget_witness:
  "Do 0 \<in> set (snd (execReq notFound halves getReq 3)) \<and>
   \<not> retryable_outcome (client notFound getReq 0) \<and>
   int (attempts_performed (snd (execReq notFound halves getReq 3))) \<le> max 0 3 \<and>
   attempts_performed (snd (execReq notFound halves getReq 3)) = Suc 0 \<and>
   Do 1 \<notin> set (snd (execReq notFound halves getReq 3))"
proof -
  have e: "execReq notFound halves getReq 3 =
    (Inl (RequestError 404 ''not found'' None), [Do 0, Debugw 404])"
    by (simp add: example_simps notFound_def)
  have 1: "Do 0 \<in> set (snd (execReq notFound halves getReq 3))"
    by (simp add: e)
  have 2: "\<not> retryable_outcome (client notFound getReq 0)"
    by (simp add: notFound_def example_simps)
  from execReq_attempt_budget [of notFound halves getReq 3 0] 1 2
  have "int (attempts_performed (snd (execReq notFound halves getReq 3))) \<le> max 0 3 \<and>
     attempts_performed (snd (execReq notFound halves getReq 3)) = Suc 0 \<and>
     (\<forall>j'. Do j' \<in> set (snd (execReq notFound halves getReq 3)) \<longrightarrow> j' \<le> 0)"
    by blast
  then have "int (attempts_performed (snd (execReq notFound halves getReq 3))) \<le> max 0 3 \<and>
     attempts_performed (snd (execReq notFound halves getReq 3)) = Suc 0 \<and>
     Do 1 \<notin> set (snd (execReq notFound halves getReq 3))"
    by fastforce
  with 1 2 show ?thesis by blast
qed

text \<open>
  Claim C6: when the first \<open>k\<close> attempts fail in the transport or in reading the body,
  \<open>k\<close> is below \<^verbatim>\<open>attempts\<close> and attempt \<open>k\<close> is answered with a 2xx status and a body,
  the call performs exactly \<open>k + 1\<close> attempts and returns that body with no error.
\<close>

theorem execReq_success_after_failures:
  assumes "int k < attempts"
    and "\<forall>i<k. is_failure (client c req i)"
    and "client c req k = Response status body" "isSuccessStatus status"
  shows "fst (execReq c rnd req attempts) = Inr body \<and>
         attempts_performed (snd (execReq c rnd req attempts)) = k + 1"
proof -
  have "\<forall>j. 0 \<le> j \<and> j < k \<longrightarrow> retryable_outcome (client c req j)"
    using assms(2) by (simp add: is_failure_retryable)
  moreover have "\<not> (int k < attempts - 1 \<and> retryable_outcome (client c req k))"
    using assms(3,4) by simp
  ultimately have
    "fst (execReq_loop c rnd req attempts 0 None) = outcome_result (client c req k) \<and>
     attempts_performed (snd (execReq_loop c rnd req attempts 0 None)) = Suc k - 0"
    using assms(1) by (intro loop_failures_then) simp_all
  with assms(3,4) show ?thesis
    by (simp add: execReq_def)
qed

text \<open>Two refused connections, then 200 with the body "ok": three attempts, result "ok".\<close>

theorem execReq_success_after_failures_witness:
  "int 2 < 3 \<and> is_failure (client flaky getReq 0) \<and> is_failure (client flaky getReq 1) \<and>
   client flaky getReq 2 = Response 200 ''ok'' \<and> isSuccessStatus 200 \<and>
   fst (execReq flaky halves getReq 3) = Inr ''ok'' \<and>
   attempts_performed (snd (execReq flaky halves getReq 3)) = 2 + 1"
proof -
  have f: "\<forall>i<2. is_failure (client flaky getReq i)"
    by (simp add: flaky_def)
  have r: "client flaky getReq 2 = Response 200 ''ok''"
    by (simp add: flaky_def)
  have s: "isSuccessStatus 200"
    by (simp add: isSuccessStatus_def)
  have "int 2 < 3" by simp
  from execReq_success_after_failures [OF this f r s, of halves] f r s
  show ?thesis by simp
qed

text \<open>
  Claim C7: when the first attempt of a call with \<^verbatim>\<open>attempts\<close> of at least 1 is answered
  with a status that is neither a success nor retryable, the call returns after that
  one attempt, with no sleep, a \<^verbatim>\<open>RequestError\<close> whose \<^verbatim>\<open>StatusCode\<close> is the status
  and whose \<^verbatim>\<open>Body\<close> is the body as it was read.
\<close>

theorem execReq_terminal_status:
  assumes "1 \<le> attempts"
    and "client c req 0 = Response status body"
    and "\<not> isSuccessStatus status" "\<not> isRetryableStatusCode status"
  shows "execReq c rnd req attempts = (Inl (RequestError status body None), [Do 0, Debugw status]) \<and>
         attempts_performed (snd (execReq c rnd req attempts)) = 1 \<and>
         StatusCode (RequestError status body None) = status \<and>
         Body (RequestError status body None) = body"
proof -
  have "int 0 < attempts" using assms(1) by simp
  moreover have "\<not> retryable_outcome (client c req 0)"
    using assms(2,4) by simp
  ultimately have "execReq_loop c rnd req attempts 0 None =
       (if isSuccessStatus status then Inr body else Inl (RequestError status body None),
        [Do 0, Debugw status])"
    using assms(2) by (intro loop_terminal) simp_all
  with assms(3) show ?thesis
    by (simp add: execReq_def)
qed

text \<open>The transport that answers 404 with the body "not found".\<close>

theorem execReq_terminal_status_witness:
  "(1::int) \<le> 3 \<and> client notFound getReq 0 = Response 404 ''not found'' \<and>
   \<not> isSuccessStatus 404 \<and> \<not> isRetryableStatusCode 404 \<and>
   execReq notFound halves getReq 3 =
     (Inl (RequestError 404 ''not found'' None), [Do 0, Debugw 404]) \<and>
   attempts_performed (snd (execReq notFound halves getReq 3)) = 1"
proof -
  have r: "client notFound getReq 0 = Response 404 ''not found''"
    by (simp add: notFound_def)
  have s: "\<not> isSuccessStatus 404"
    by (simp add: isSuccessStatus_def)
  have t: "\<not> isRetryableStatusCode 404"
    by (simp add: example_simps)
  from execReq_terminal_status [OF _ r s t, of 3 halves] r s t
  show ?thesis by simp
qed

text \<open>
  Claim C5 says that a call with \<open>N \<ge> 1\<close> attempts whose transport fails every time
  performs exactly \<open>N\<close> attempts and returns an exhaustion error that carries the attempt
  count and the last failure. The code performs the \<open>N\<close> attempts, but the last iteration
  returns \<^verbatim>\<open>lastErr\<close> itself, the last failure wrapped as "request failed: ..." or
  "reading response: ...": the error "request failed after N attempts: ..." that stands
  after the loop is not what the call returns.
\<close>

theorem execReq_all_fail_last_error:
  assumes "1 \<le> attempts"
    and "\<forall>i. int i < attempts \<longrightarrow> is_failure (client c req i)"
  shows "attempts_performed (snd (execReq c rnd req attempts)) = nat attempts \<and>
         fst (execReq c rnd req attempts) = Inl (failure_error (client c req (nat attempts - 1))) \<and>
         fst (execReq c rnd req attempts) \<noteq>
           Inl (ErrorfAttempts attempts (Some (failure_error (client c req (nat attempts - 1)))))"
proof -
  have f: "is_failure (client c req (nat attempts - 1))"
    using assms by simp
  have "failure_error r \<noteq> ErrorfAttempts n e" if "is_failure r" for r n e
    using that by (cases r) simp_all
  with f execReq_all_fail [OF assms, of rnd] show ?thesis
    by simp
qed

text \<open>Three attempts against the transport that refuses every connection.\<close>

theorem execReq_all_fail_last_error_witness:
  "(1::int) \<le> 3 \<and> is_failure (client refusing getReq 2) \<and>
   attempts_performed (snd (execReq refusing halves getReq 3)) = 3 \<and>
   fst (execReq refusing halves getReq 3) =
     Inl (Errorf ''request failed'' (Cause (Other ''connection refused''))) \<and>
   fst (execReq refusing halves getReq 3) \<noteq>
     Inl (ErrorfAttempts 3 (Some (Errorf ''request failed'' (Cause (Other ''connection refused'')))))"
proof -
  have "\<forall>i. int i < 3 \<longrightarrow> is_failure (client refusing getReq i)"
    by (simp add: refusing_def)
  from execReq_all_fail_last_error [OF _ this, of halves]
  show ?thesis by (simp add: refusing_def)
qed

text \<open>
  Claim C2 says that a call whose context is cancelled performs no further attempt, and
  that a failure caused by cancellation or by the deadline is never retried. As stated
  it fails: with a cancelled context every call of the transport fails with
  \<^verbatim>\<open>context.Canceled\<close>, and the call of three attempts still sleeps twice and performs
  all three.
\<close>

theorem execReq_cancelled_counterexample:
  "client cancelled getReq 0 = DoError ContextCanceled \<and>
   execReq cancelled halves getReq 3 =
    (Inl (Errorf ''request failed'' (Cause ContextCanceled)),
     [Do 0, Warnw 1, Sleep second, Do 1, Warnw 2, Sleep (2 * second), Do 2])"
  by (simp add: example_simps cancelled_def)

text \<open>
  Claim C2 as amended: the loop does not look at the cause of a failure of the transport.
  Whatever the cause, the cancellation of the context and the expiry of the deadline
  included, a failed attempt \<open>i\<close> that is not the last iteration is followed by
  \<^verbatim>\<open>time.Sleep\<close> of its backoff and then by attempt \<open>i + 1\<close>; a failed attempt that is
  the last iteration makes the call return the cause wrapped as "request failed: ...".
\<close>

theorem execReq_retries_whatever_the_cause:
  assumes "Do i \<in> set (snd (execReq c rnd req attempts))"
    and "client c req i = DoError cause"
  shows "(int i < attempts - 1 \<longrightarrow>
           (\<exists>d xs ys. calcBackoff (int i) (baseDelay c) (rnd i) = Some d \<and>
              snd (execReq c rnd req attempts) = xs @ Sleep d # Do (Suc i) # ys)) \<and>
         (\<not> int i < attempts - 1 \<longrightarrow>
           fst (execReq c rnd req attempts) = Inl (Errorf ''request failed'' (Cause cause)))"
proof (intro conjI impI)
  assume "int i < attempts - 1"
  moreover have "retryable_outcome (client c req i)"
    using assms(2) by simp
  ultimately show "\<exists>d xs ys. calcBackoff (int i) (baseDelay c) (rnd i) = Some d \<and>
      snd (execReq c rnd req attempts) = xs @ Sleep d # Do (Suc i) # ys"
    using assms(1) unfolding execReq_def by (intro loop_sleep_then_retry)
next
  assume "\<not> int i < attempts - 1"
  then have "\<not> (int i < attempts - 1 \<and> retryable_outcome (client c req i))"
    by simp
  with assms(1) have "fst (execReq c rnd req attempts) = outcome_result (client c req i)"
    unfolding execReq_def by (rule loop_last_result)
  with assms(2) show "fst (execReq c rnd req attempts) = Inl (Errorf ''request failed'' (Cause cause))"
    by simp
qed

text \<open>The cancelled context: attempt 0 fails, the call sleeps one second and tries again.\<close>

theorem execReq_retries_whatever_the_cause_witness:
  "Do 0 \<in> set (snd (execReq cancelled halves getReq 3)) \<and>
   client cancelled getReq 0 = DoError ContextCanceled \<and>
   int 0 < 3 - 1 \<and>
   (\<exists>d xs ys. calcBackoff (int 0) (baseDelay cancelled) (halves 0) = Some d \<and>
      snd (execReq cancelled halves getReq 3) = xs @ Sleep d # Do (Suc 0) # ys)"
proof -
  have e: "execReq cancelled halves getReq 3 =
    (Inl (Errorf ''request failed'' (Cause ContextCanceled)),
     [Do 0, Warnw 1, Sleep second, Do 1, Warnw 2, Sleep (2 * second), Do 2])"
    by (simp add: example_simps cancelled_def)
  have 1: "Do 0 \<in> set (snd (execReq cancelled halves getReq 3))"
    by (simp add: e)
  have 2: "client cancelled getReq 0 = DoError ContextCanceled"
    by (simp add: cancelled_def)
  from execReq_retries_whatever_the_cause [OF 1 2] 1 2 show ?thesis
    by simp
qed

subsection \<open>The builders\<close>

lemma Header_Set_Header [simp]:
  "Header (Header_Set env k v req) = (Header req)(CanonicalMIMEHeaderKey env k \<mapsto> [v])"
  by (simp add: Header_Set_def)

lemma setHeaders_Nil [simp]: "setHeaders env [] req = req"
  by (simp add: setHeaders_def)

lemma setHeaders_snoc [simp]:
  "setHeaders env (headers @ [(k, v)]) req = Header_Set env k v (setHeaders env headers req)"
  by (simp add: setHeaders_def)

text \<open>
  Among the caller's entries whose canonical key is \<open>K\<close>, the one the loop reaches last is
  what \<open>K\<close> is bound to.
\<close>

lemma setHeaders_collision:
  assumes "(k, v) \<in> set headers" "CanonicalMIMEHeaderKey env k = K"
  shows "\<exists>k' v'. (k', v') \<in> set headers \<and> CanonicalMIMEHeaderKey env k' = K \<and>
           Header (setHeaders env headers req) K = Some [v']"
  using assms
proof (induction headers rule: rev_induct)
  case Nil
  then show ?case by simp
next
  case (snoc x xs)
  obtain k1 v1 where x: "x = (k1, v1)" by (cases x)
  show ?case
  proof (cases "CanonicalMIMEHeaderKey env k1 = K")
    case True
    then have "(k1, v1) \<in> set (xs @ [x]) \<and> CanonicalMIMEHeaderKey env k1 = K \<and>
        Header (setHeaders env (xs @ [x]) req) K = Some [v1]"
      by (simp add: x)
    then show ?thesis by blast
  next
    case False
    with snoc(2,3) x have "(k, v) \<in> set xs" by auto
    with snoc(1,3) obtain k' v' where
      "(k', v') \<in> set xs" "CanonicalMIMEHeaderKey env k' = K"
      "Header (setHeaders env xs req) K = Some [v']" by blast
    with False have "(k', v') \<in> set (xs @ [x]) \<and> CanonicalMIMEHeaderKey env k' = K \<and>
        Header (setHeaders env (xs @ [x]) req) K = Some [v']"
      by (simp add: x)
    then show ?thesis by blast
  qed
qed

text \<open>
  Without such an entry the binding of \<open>K\<close> is the one made before the loop.
\<close>

lemma setHeaders_no_collision:
  assumes "\<forall>(k, v) \<in> set headers. CanonicalMIMEHeaderKey env k \<noteq> K"
  shows "Header (setHeaders env headers req) K = Header req K"
  using assms
  by (induction headers rule: rev_induct) auto

text \<open>
  Claim C9: for \<^verbatim>\<open>PostJsonReq\<close>, \<^verbatim>\<open>PutJsonReq\<close>, \<^verbatim>\<open>PatchJsonReq\<close> and \<^verbatim>\<open>PostFormReq\<close>,
  when the payload is encoded and the request is created without error and an entry of
  the caller's headers has the canonical key of \<^verbatim>\<open>Content-Type\<close>, the result of the
  builder is the result of \<^verbatim>\<open>execReq\<close> on the assembled request with
  \<^verbatim>\<open>c.maxAttempts\<close>, unchanged, and in that request \<^verbatim>\<open>Content-Type\<close> is bound to the
  value of a caller's entry with that canonical key (the one entry, when the caller
  gives one), not to the builder's default.
\<close>

theorem builders_caller_header_wins:
  assumes hit: "(k, v) \<in> set headers"
      "CanonicalMIMEHeaderKey env k = CanonicalMIMEHeaderKey env ''Content-Type''"
    and marshal: "json_Marshal env payload = Inr jsonBody"
    and post: "NewRequestWithContext env ctx ''POST'' url (Some jsonBody) = Inr postReq"
    and put: "NewRequestWithContext env ctx ''PUT'' url (Some jsonBody) = Inr putReq"
    and patch: "NewRequestWithContext env ctx ''PATCH'' url (Some jsonBody) = Inr patchReq"
    and form: "NewRequestWithContext env ctx ''POST'' url (Some (Encode env formData)) = Inr formReq"
  shows "(\<exists>req k' v'.
            PostJsonReq env c rnd ctx url payload headers = execReq c rnd req (maxAttempts c) \<and>
            (k', v') \<in> set headers \<and>
            CanonicalMIMEHeaderKey env k' = CanonicalMIMEHeaderKey env ''Content-Type'' \<and>
            Header req (CanonicalMIMEHeaderKey env ''Content-Type'') = Some [v']) \<and>
         (\<exists>req k' v'.
            PutJsonReq env c rnd ctx url payload headers = execReq c rnd req (maxAttempts c) \<and>
            (k', v') \<in> set headers \<and>
            CanonicalMIMEHeaderKey env k' = CanonicalMIMEHeaderKey env ''Content-Type'' \<and>
            Header req (CanonicalMIMEHeaderKey env ''Content-Type'') = Some [v']) \<and>
         (\<exists>req k' v'.
            PatchJsonReq env c rnd ctx url payload headers = execReq c rnd req (maxAttempts c) \<and>
            (k', v') \<in> set headers \<and>
            CanonicalMIMEHeaderKey env k' = CanonicalMIMEHeaderKey env ''Content-Type'' \<and>
            Header req (CanonicalMIMEHeaderKey env ''Content-Type'') = Some [v']) \<and>
         (\<exists>req k' v'.
            PostFormReq env c rnd ctx url formData headers = execReq c rnd req (maxAttempts c) \<and>
            (k', v') \<in> set headers \<and>
            CanonicalMIMEHeaderKey env k' = CanonicalMIMEHeaderKey env ''Content-Type'' \<and>
            Header req (CanonicalMIMEHeaderKey env ''Content-Type'') = Some [v'])"
proof -
  let ?K = "CanonicalMIMEHeaderKey env ''Content-Type''"
  have win: "\<exists>req k' v'. execReq c rnd (setHeaders env headers r0) (maxAttempts c) =
        execReq c rnd req (maxAttempts c) \<and>
      (k', v') \<in> set headers \<and> CanonicalMIMEHeaderKey env k' = ?K \<and>
      Header req ?K = Some [v']" for r0
    using setHeaders_collision [OF hit, of r0] by blast
  have "\<exists>req k' v'. PostJsonReq env c rnd ctx url payload headers = execReq c rnd req (maxAttempts c) \<and>
      (k', v') \<in> set headers \<and> CanonicalMIMEHeaderKey env k' = ?K \<and> Header req ?K = Some [v']"
    unfolding PostJsonReq_def using win by (simp add: marshal post)
  moreover
  have "\<exists>req k' v'. PutJsonReq env c rnd ctx url payload headers = execReq c rnd req (maxAttempts c) \<and>
      (k', v') \<in> set headers \<and> CanonicalMIMEHeaderKey env k' = ?K \<and> Header req ?K = Some [v']"
    unfolding PutJsonReq_def using win by (simp add: marshal put)
  moreover
  have "\<exists>req k' v'. PatchJsonReq env c rnd ctx url payload headers = execReq c rnd req (maxAttempts c) \<and>
      (k', v') \<in> set headers \<and> CanonicalMIMEHeaderKey env k' = ?K \<and> Header req ?K = Some [v']"
    unfolding PatchJsonReq_def using win by (simp add: marshal patch)
  moreover
  have "\<exists>req k' v'. PostFormReq env c rnd ctx url formData headers = execReq c rnd req (maxAttempts c) \<and>
      (k', v') \<in> set headers \<and> CanonicalMIMEHeaderKey env k' = ?K \<and> Header req ?K = Some [v']"
    unfolding PostFormReq_def Let_def using win by (simp add: form)
  ultimately show ?thesis by blast
qed

text \<open>
  A caller who sets \<^verbatim>\<open>Accept\<close> and \<^verbatim>\<open>Content-Type: text/plain\<close>.
\<close>

theorem builders_caller_header_wins_witness:
  "(''Content-Type'', ''text/plain'') \<in> set [(''Accept'', ''*/*''), (''Content-Type'', ''text/plain'')] \<and>
   (\<exists>req. PostJsonReq plainLib notFound halves () ''http://upstream/'' ''{}''
            [(''Accept'', ''*/*''), (''Content-Type'', ''text/plain'')] =
          execReq notFound halves req 3 \<and>
          Header req ''Content-Type'' = Some [''text/plain'']) \<and>
   (\<exists>req. PostFormReq plainLib notFound halves () ''http://upstream/'' ''a=1''
            [(''Accept'', ''*/*''), (''Content-Type'', ''text/plain'')] =
          execReq notFound halves req 3 \<and>
          Header req ''Content-Type'' = Some [''text/plain''])"
proof -
  let ?hs = "[(''Accept'', ''*/*''), (''Content-Type'', ''text/plain'')]"
  have hit: "(''Content-Type'', ''text/plain'') \<in> set ?hs"
    "CanonicalMIMEHeaderKey plainLib ''Content-Type'' = CanonicalMIMEHeaderKey plainLib ''Content-Type''"
    by simp_all
  have m: "maxAttempts notFound = 3" "CanonicalMIMEHeaderKey plainLib = (\<lambda>k. k)"
    by (simp_all add: notFound_def plainLib_def)
  have only: "v' = ''text/plain''" if "(k', v') \<in> set ?hs" "k' = ''Content-Type''" for k' v'
    using that by auto
  from builders_caller_header_wins [OF hit, of "''{}''" "''{}''" "()" "''http://upstream/''"
      _ _ _ "''a=1''" _ notFound halves]
  have "(\<exists>req k' v'.
            PostJsonReq plainLib notFound halves () ''http://upstream/'' ''{}'' ?hs =
              execReq notFound halves req 3 \<and>
            (k', v') \<in> set ?hs \<and> k' = ''Content-Type'' \<and>
            Header req ''Content-Type'' = Some [v']) \<and>
         (\<exists>req k' v'.
            PostFormReq plainLib notFound halves () ''http://upstream/'' ''a=1'' ?hs =
              execReq notFound halves req 3 \<and>
            (k', v') \<in> set ?hs \<and> k' = ''Content-Type'' \<and>
            Header req ''Content-Type'' = Some [v'])"
    unfolding m by (simp add: plainLib_def)
  with only have "(\<exists>req. PostJsonReq plainLib notFound halves () ''http://upstream/'' ''{}'' ?hs =
          execReq notFound halves req 3 \<and> Header req ''Content-Type'' = Some [''text/plain'']) \<and>
     (\<exists>req. PostFormReq plainLib notFound halves () ''http://upstream/'' ''a=1'' ?hs =
          execReq notFound halves req 3 \<and> Header req ''Content-Type'' = Some [''text/plain''])"
    by metis
  with hit(1) show ?thesis by blast
qed

end
